theory Spec2Isabelle
  imports Main "HOL-Library.Multiset"
begin

text \<open>
  A model of the \<^verbatim>\<open>mkdocs_fastsearch\<close> plugin module: the validation of the
  \<^verbatim>\<open>lang\<close> option (\<^verbatim>\<open>LangOption\<close>) and the choice of the language
  support files in \<^verbatim>\<open>SearchPlugin.on_post_build\<close>.
\<close>

section \<open>Python values and exceptions\<close>

text \<open>
  The option validators receive an arbitrary Python object (\<^verbatim>\<open>value: object\<close>).
  The values that matter here are \<^verbatim>\<open>None\<close>, booleans, integers, strings and lists.
  Strings are lists of 8-bit characters; language codes are ASCII.
\<close>

datatype pyval = PNone | PBool bool | PInt int | PStr string | PList "pyval list"

text \<open>
  The exceptions the modelled code can raise: \<^verbatim>\<open>c.ValidationError\<close> with its message,
  \<^verbatim>\<open>AttributeError\<close> (calling \<^verbatim>\<open>.split\<close> on a value that is not a string),
  \<^verbatim>\<open>ValueError\<close> (\<^verbatim>\<open>list.remove\<close> of an absent element) and
  \<^verbatim>\<open>AssertionError\<close>.
\<close>

datatype error = ValidationError string | AttributeError | ValueError | AssertionError

text \<open>Python truthiness of a value (\<^verbatim>\<open>if v:\<close>).\<close>

fun truthy :: "pyval \<Rightarrow> bool" where
  "truthy PNone = False"
| "truthy (PBool b) = b"
| "truthy (PInt i) = (i \<noteq> 0)"
| "truthy (PStr s) = (s \<noteq> [])"
| "truthy (PList xs) = (xs \<noteq> [])"

section \<open>String primitives\<close>

text \<open>\<^verbatim>\<open>str.lower()\<close> on ASCII text: the letters A..Z (65..90) move to a..z, every
  other character stays.\<close>

definition lower_char :: "char \<Rightarrow> char" where
  "lower_char c =
     (if 65 \<le> (of_char c :: nat) \<and> (of_char c :: nat) \<le> 90
      then char_of ((of_char c :: nat) + 32) else c)"

definition str_lower :: "string \<Rightarrow> string" where
  "str_lower s = map lower_char s"

text \<open>
  \<^verbatim>\<open>s.split(sep)\<close> for a one-character separator: the pieces between the separators,
  empty pieces kept; the result is never empty (\<^verbatim>\<open>"".split("_") == [""]\<close>).
\<close>

fun str_split :: "char \<Rightarrow> string \<Rightarrow> string list" where
  "str_split sep [] = [[]]"
| "str_split sep (x # xs) =
     (if x = sep then [] # str_split sep xs
      else (x # hd (str_split sep xs)) # tl (str_split sep xs))"

text \<open>\<^verbatim>\<open>d.get(k, default)\<close> on a dictionary.\<close>

definition dict_get :: "('k \<rightharpoonup> 'v) \<Rightarrow> 'k \<Rightarrow> 'v \<Rightarrow> 'v" where
  "dict_get d k dflt = (case d k of None \<Rightarrow> dflt | Some v \<Rightarrow> v)"

section \<open>LangOption\<close>

text \<open>\<^verbatim>\<open>fallback = {'uk': 'ru'}\<close>\<close>

definition fallback :: "string \<rightharpoonup> string" where
  "fallback = [''uk'' \<mapsto> ''ru'']"

text \<open>\<^verbatim>\<open>f'lunr.{lang_part}.js'\<close>\<close>

definition lunr_js :: "string \<Rightarrow> string" where
  "lunr_js lang_part = ''lunr.'' @ lang_part @ ''.js''"

text \<open>
  The file system is a parameter: \<open>isfile name\<close> stands for
  \<^verbatim>\<open>os.path.isfile(os.path.join(base_path, 'lunr-language', name))\<close>.

  The body of the \<^verbatim>\<open>for lang_part in lang.split("_")\<close> loop of
  \<^verbatim>\<open>get_lunr_supported_lang\<close>: lower-case the part, send it through the fallback
  table, return it when its support file exists. Falling off the end of the loop returns
  \<^verbatim>\<open>None\<close>.
\<close>

fun lang_parts_loop :: "(string \<Rightarrow> bool) \<Rightarrow> string list \<Rightarrow> string option" where
  "lang_parts_loop isfile [] = None"
| "lang_parts_loop isfile (lang_part # rest) =
     (let lp = str_lower lang_part;
          lp' = dict_get fallback lp lp
      in if isfile (lunr_js lp') then Some lp' else lang_parts_loop isfile rest)"

definition get_lunr_supported_lang :: "(string \<Rightarrow> bool) \<Rightarrow> string \<Rightarrow> string option" where
  "get_lunr_supported_lang isfile lang = lang_parts_loop isfile (str_split CHR ''_'' lang)"

text \<open>\<^verbatim>\<open>not lang_detected\<close>: true for \<^verbatim>\<open>None\<close> and for the empty string.\<close>

fun not_detected :: "string option \<Rightarrow> bool" where
  "not_detected None = True"
| "not_detected (Some s) = (s = [])"

text \<open>\<^verbatim>\<open>value.remove(x)\<close>: drops the first element equal to \<open>x\<close>, raises
  \<^verbatim>\<open>ValueError\<close> when there is none.\<close>

definition list_remove :: "pyval list \<Rightarrow> pyval \<Rightarrow> error + pyval list" where
  "list_remove v x = (if x \<in> set v then Inr (remove1 x v) else Inl ValueError)"

text \<open>
  One iteration of \<^verbatim>\<open>for lang in list(value)\<close> in \<^verbatim>\<open>run_validation\<close>, on the
  current contents of \<^verbatim>\<open>value\<close>. An element that is not a string differs from
  \<^verbatim>\<open>'en'\<close> and then fails in \<^verbatim>\<open>lang.split\<close>.
\<close>

definition validate_lang :: "(string \<Rightarrow> bool) \<Rightarrow> pyval list \<Rightarrow> pyval \<Rightarrow> error + pyval list" where
  "validate_lang isfile v lang =
     (if lang \<noteq> PStr ''en'' then
        (case lang of
           PStr s \<Rightarrow>
             (let lang_detected = get_lunr_supported_lang isfile s in
              if not_detected lang_detected then
                (case list_remove v lang of
                   Inl e \<Rightarrow> Inl e
                 | Inr v1 \<Rightarrow>
                     Inr (if PStr ''en'' \<notin> set v1 then v1 @ [PStr ''en''] else v1))
              else if lang_detected \<noteq> Some s then
                (case list_remove v lang of
                   Inl e \<Rightarrow> Inl e
                 | Inr v1 \<Rightarrow> Inr (v1 @ [PStr (the lang_detected)]))
              else Inr v)
         | _ \<Rightarrow> Inl AttributeError)
      else Inr v)"

text \<open>The loop over the snapshot \<^verbatim>\<open>list(value)\<close>; the first exception ends it.\<close>

fun validate_loop :: "(string \<Rightarrow> bool) \<Rightarrow> pyval list \<Rightarrow> pyval list \<Rightarrow> error + pyval list" where
  "validate_loop isfile v [] = Inr v"
| "validate_loop isfile v (lang # rest) =
     (case validate_lang isfile v lang of
        Inl e \<Rightarrow> Inl e
      | Inr v1 \<Rightarrow> validate_loop isfile v1 rest)"

text \<open>\<^verbatim>\<open>LangOption.run_validation\<close>: a string becomes a one-element list, anything
  that is then not a list is rejected, and the list is validated against its own snapshot.\<close>

definition run_validation :: "(string \<Rightarrow> bool) \<Rightarrow> pyval \<Rightarrow> error + pyval list" where
  "run_validation isfile value0 =
     (let value1 = (case value0 of PStr s \<Rightarrow> PList [value0] | _ \<Rightarrow> value0) in
      case value1 of
        PList v \<Rightarrow> validate_loop isfile v v
      | _ \<Rightarrow> Inl (ValidationError ''Expected a list of language codes.''))"

text \<open>
  A code is settled when validation leaves it alone: it is \<^verbatim>\<open>'en'\<close>, or it is a
  non-empty string that \<^verbatim>\<open>get_lunr_supported_lang\<close> resolves to itself.
\<close>

definition settled :: "(string \<Rightarrow> bool) \<Rightarrow> pyval \<Rightarrow> bool" where
  "settled isfile x =
     (case x of
        PStr s \<Rightarrow> s = ''en'' \<or> (s \<noteq> [] \<and> get_lunr_supported_lang isfile s = Some s)
      | _ \<Rightarrow> False)"

text \<open>A concrete directory listing: \<open>isfile_in names\<close> holds exactly of the listed names.\<close>

definition isfile_in :: "string list \<Rightarrow> string \<Rightarrow> bool" where
  "isfile_in names name = (name \<in> set names)"

section \<open>SearchPlugin.on\_post\_build: the language support files\<close>

text \<open>
  \<^verbatim>\<open>'search_index_only' in config['theme'] and config['theme']['search_index_only']\<close>,
  the theme being a dictionary from option names to values.
\<close>

definition search_index_only :: "(string \<rightharpoonup> pyval) \<Rightarrow> bool" where
  "search_index_only theme =
     (case theme ''search_index_only'' of None \<Rightarrow> False | Some v \<Rightarrow> truthy v)"

text \<open>The loop \<^verbatim>\<open>for lang in self.config['lang']\<close>, appending one file per code that
  is not \<^verbatim>\<open>'en'\<close>.\<close>

fun per_lang_files :: "string list \<Rightarrow> string list \<Rightarrow> string list" where
  "per_lang_files files [] = files"
| "per_lang_files files (lang # rest) =
     per_lang_files (if lang \<noteq> ''en'' then files @ [lunr_js lang] else files) rest"

text \<open>The list \<^verbatim>\<open>files\<close> built inside the guard of \<^verbatim>\<open>on_post_build\<close>.\<close>

definition lang_files :: "string list \<Rightarrow> string list" where
  "lang_files lang =
     (let files0 = [];
          files1 = (if length lang > 1 \<or> ''en'' \<notin> set lang
                    then files0 @ [''lunr.stemmer.support.js''] else files0);
          files2 = (if length lang > 1 then files1 @ [''lunr.multi.js''] else files1);
          files3 = (if ''ja'' \<in> set lang \<or> ''jp'' \<in> set lang
                    then files2 @ [''tinyseg.js''] else files2)
      in per_lang_files files3 lang)"

text \<open>
  The files \<^verbatim>\<open>on_post_build\<close> copies: \<^verbatim>\<open>assert self.config['lang'] is not None\<close>
  comes first, then the guard on the theme; under \<^verbatim>\<open>search_index_only\<close> nothing is
  copied.
\<close>

definition on_post_build_files :: "(string \<rightharpoonup> pyval) \<Rightarrow> string list option \<Rightarrow> error + string list" where
  "on_post_build_files theme lang =
     (case lang of
        None \<Rightarrow> Inl AssertionError
      | Some l \<Rightarrow> (if \<not> search_index_only theme then Inr (lang_files l) else Inr []))"

section \<open>Properties of the string primitives\<close>


lemma lower_char_idem: "lower_char (lower_char c) = lower_char c"
  by (simp add: lower_char_def)

lemma lower_char_sep: "lower_char c = CHR ''_'' \<longleftrightarrow> c = CHR ''_''"
proof
  assume h: "lower_char c = CHR ''_''"
  show "c = CHR ''_''"
  proof (cases "65 \<le> (of_char c :: nat) \<and> (of_char c :: nat) \<le> 90")
    case True
    then have "char_of ((of_char c :: nat) + 32) = CHR ''_''"
      using h by (simp add: lower_char_def)
    then have "(of_char (char_of ((of_char c :: nat) + 32) :: char) :: nat) = of_char CHR ''_''"
      by simp
    then have "((of_char c :: nat) + 32) mod 256 = 95" by simp
    with True show ?thesis by auto
  next
    case False
    then show ?thesis using h by (auto simp add: lower_char_def)
  qed
next
  assume "c = CHR ''_''"
  then show "lower_char c = CHR ''_''" by (simp add: lower_char_def)
qed

lemma str_lower_idem: "str_lower (str_lower s) = str_lower s"
  by (simp add: str_lower_def lower_char_idem)

lemma str_split_nonempty: "str_split sep s \<noteq> []"
  by (induction s) auto

lemma str_split_no_sep: "p \<in> set (str_split sep s) \<Longrightarrow> sep \<notin> set p"
proof (induction s arbitrary: p)
  case Nil
  then show ?case by simp
next
  case (Cons x xs)
  obtain q qs where q: "str_split sep xs = q # qs"
    using str_split_nonempty [of sep xs] by (cases "str_split sep xs") auto
  show ?case
  proof (cases "x = sep")
    case True
    with Cons show ?thesis by auto
  next
    case False
    with Cons.prems q have "p = x # q \<or> p \<in> set qs" by simp
    then show ?thesis
      using Cons.IH [of q] Cons.IH [of p] q False by auto
  qed
qed

lemma str_split_whole: "sep \<notin> set s \<Longrightarrow> str_split sep s = [s]"
  by (induction s) auto

lemma str_split_lower:
  "str_split CHR ''_'' (str_lower s) = map str_lower (str_split CHR ''_'' s)"
proof (induction s)
  case Nil
  then show ?case by (simp add: str_lower_def)
next
  case (Cons x xs)
  obtain q qs where q: "str_split CHR ''_'' xs = q # qs"
    using str_split_nonempty [of "CHR ''_''" xs] by (cases "str_split CHR ''_'' xs") auto
  from Cons q show ?case
    by (simp add: str_lower_def lower_char_sep)
qed


section \<open>Resolution and the validation loop\<close>

lemma lang_parts_loop_Some:
  "lang_parts_loop isfile ps = Some d \<Longrightarrow>
   \<exists>p\<in>set ps. d = dict_get fallback (str_lower p) (str_lower p) \<and> isfile (lunr_js d)"
  by (induction ps) (auto simp: Let_def split: if_splits)

lemma fallback_get: "dict_get fallback k k = (if k = ''uk'' then ''ru'' else k)"
  by (simp add: dict_get_def fallback_def)

lemma str_lower_no_sep:
  assumes "CHR ''_'' \<notin> set p"
  shows "CHR ''_'' \<notin> set (str_lower p)"
proof
  assume "CHR ''_'' \<in> set (str_lower p)"
  then obtain x where x: "x \<in> set p" "lower_char x = CHR ''_''"
    by (auto simp: str_lower_def)
  from x(2) have "x = CHR ''_''" by (simp add: lower_char_sep)
  with x(1) assms show False by simp
qed

lemma resolved_is_fixed:
  assumes "get_lunr_supported_lang isfile lang = Some d"
  shows "get_lunr_supported_lang isfile d = Some d"
proof -
  from assms obtain p where p: "p \<in> set (str_split CHR ''_'' lang)"
    and d: "d = dict_get fallback (str_lower p) (str_lower p)" and f: "isfile (lunr_js d)"
    unfolding get_lunr_supported_lang_def by (blast dest: lang_parts_loop_Some)
  show ?thesis
  proof (cases "str_lower p = ''uk''")
    case True
    with d have "d = ''ru''" by (simp add: fallback_get)
    with f show ?thesis
      by (simp add: get_lunr_supported_lang_def str_lower_def lower_char_def fallback_get)
  next
    case False
    with d have dl: "d = str_lower p" by (simp add: fallback_get)
    have "CHR ''_'' \<notin> set d"
      using p dl by (simp add: str_split_no_sep str_lower_no_sep)
    then have "str_split CHR ''_'' d = [d]" by (rule str_split_whole)
    moreover have "str_lower d = d" using dl by (simp add: str_lower_idem)
    ultimately show ?thesis
      using f False dl by (simp add: get_lunr_supported_lang_def fallback_get)
  qed
qed

lemma validate_lang_settled:
  "settled isfile x \<Longrightarrow> validate_lang isfile v x = Inr v"
  by (auto simp: settled_def validate_lang_def split: pyval.splits)

lemma validate_loop_settled:
  "\<forall>x\<in>set rest. settled isfile x \<Longrightarrow> validate_loop isfile v rest = Inr v"
  by (induction rest) (simp_all add: validate_lang_settled)

lemma validate_lang_step:
  assumes m: "mset v = mset (PStr s # rest) + G" and g: "\<forall>g\<in>#G. settled isfile g"
  shows "\<exists>v' G'. validate_lang isfile v (PStr s) = Inr v' \<and> mset v' = mset rest + G'
           \<and> (\<forall>g\<in>#G'. settled isfile g)"
proof -
  have inv: "PStr s \<in> set v"
    using m by (metis list.set_intros(1) set_mset_mset union_iff)
  have rm: "mset (remove1 (PStr s) v) = mset rest + G"
    using m by simp
  consider (en) "s = ''en''"
    | (fail) "s \<noteq> ''en''" "not_detected (get_lunr_supported_lang isfile s)"
    | (same) "s \<noteq> ''en''" "\<not> not_detected (get_lunr_supported_lang isfile s)"
        "get_lunr_supported_lang isfile s = Some s"
    | (diff) "s \<noteq> ''en''" "\<not> not_detected (get_lunr_supported_lang isfile s)"
        "get_lunr_supported_lang isfile s \<noteq> Some s"
    by blast
  then show ?thesis
  proof cases
    case en
    have "validate_lang isfile v (PStr s) = Inr v" using en by (simp add: validate_lang_def)
    moreover have "mset v = mset rest + (G + {#PStr s#})" using m by simp
    moreover have "\<forall>g\<in>#G + {#PStr s#}. settled isfile g"
      using g en by (auto simp: settled_def)
    ultimately show ?thesis by blast
  next
    case fail
    show ?thesis
    proof (cases "PStr ''en'' \<in> set (remove1 (PStr s) v)")
      case True
      then have "validate_lang isfile v (PStr s) = Inr (remove1 (PStr s) v)"
        using fail inv by (simp add: validate_lang_def list_remove_def)
      with rm g show ?thesis by blast
    next
      case False
      then have "validate_lang isfile v (PStr s) = Inr (remove1 (PStr s) v @ [PStr ''en''])"
        using fail inv by (simp add: validate_lang_def list_remove_def)
      moreover have "mset (remove1 (PStr s) v @ [PStr ''en'']) = mset rest + (G + {#PStr ''en''#})"
        using rm by simp
      moreover have "\<forall>g\<in>#G + {#PStr ''en''#}. settled isfile g"
        using g by (auto simp: settled_def)
      ultimately show ?thesis by blast
    qed
  next
    case same
    have "validate_lang isfile v (PStr s) = Inr v"
      using same by (simp add: validate_lang_def)
    moreover have "mset v = mset rest + (G + {#PStr s#})" using m by simp
    moreover have "\<forall>g\<in>#G + {#PStr s#}. settled isfile g"
      using g same by (auto simp: settled_def)
    ultimately show ?thesis by blast
  next
    case diff
    then obtain d where d: "get_lunr_supported_lang isfile s = Some d" "d \<noteq> []" "d \<noteq> s"
      by (cases "get_lunr_supported_lang isfile s") auto
    have "validate_lang isfile v (PStr s) = Inr (remove1 (PStr s) v @ [PStr d])"
      using diff d inv by (simp add: validate_lang_def list_remove_def)
    moreover have "mset (remove1 (PStr s) v @ [PStr d]) = mset rest + (G + {#PStr d#})"
      using rm by simp
    moreover have "\<forall>g\<in>#G + {#PStr d#}. settled isfile g"
      using g d resolved_is_fixed [OF d(1)] by (auto simp: settled_def)
    ultimately show ?thesis by blast
  qed
qed

lemma validate_loop_inv:
  assumes "\<forall>x\<in>set rest. \<exists>s. x = PStr s" and "mset v = mset rest + G"
    and "\<forall>g\<in>#G. settled isfile g"
  shows "\<exists>v'. validate_loop isfile v rest = Inr v' \<and> (\<forall>g\<in>set v'. settled isfile g)"
  using assms
proof (induction rest arbitrary: v G)
  case Nil
  then have "mset v = G" by simp
  then have "set v = set_mset G" by (metis set_mset_mset)
  with Nil show ?case by simp
next
  case (Cons x rest)
  then obtain s where s: "x = PStr s" by auto
  from validate_lang_step [of v s rest G isfile] Cons.prems s
  obtain v1 G1 where st: "validate_lang isfile v x = Inr v1" "mset v1 = mset rest + G1"
      "\<forall>g\<in>#G1. settled isfile g"
    by blast
  from Cons.IH [OF _ st(2) st(3)] Cons.prems(1)
  obtain v' where "validate_loop isfile v1 rest = Inr v'" "\<forall>g\<in>set v'. settled isfile g"
    by auto
  with st(1) show ?case by simp
qed

lemma validate_loop_total:
  assumes "\<forall>x\<in>set xs. \<exists>s. x = PStr s"
  shows "\<exists>ys. validate_loop isfile xs xs = Inr ys \<and> (\<forall>g\<in>set ys. settled isfile g)"
  using validate_loop_inv [of xs xs "{#}" isfile] assms by simp

lemma validate_loop_strings:
  "validate_loop isfile v rest = Inr v' \<Longrightarrow> \<forall>x\<in>set rest. \<exists>s. x = PStr s"
proof (induction rest arbitrary: v)
  case Nil
  then show ?case by simp
next
  case (Cons x rest)
  from Cons.prems obtain v1 where st: "validate_lang isfile v x = Inr v1"
      and lp: "validate_loop isfile v1 rest = Inr v'"
    by (auto split: sum.splits)
  from st have "\<exists>s. x = PStr s"
    by (cases x) (auto simp: validate_lang_def split: if_splits)
  with Cons.IH [OF lp] show ?case by simp
qed

lemma run_validation_accepted:
  assumes "run_validation isfile v0 = Inr ys"
  shows "\<exists>xs. (v0 = PList xs \<or> (\<exists>s. v0 = PStr s \<and> xs = [v0]))
           \<and> validate_loop isfile xs xs = Inr ys \<and> (\<forall>x\<in>set xs. \<exists>s. x = PStr s)"
proof (cases v0)
  case (PList xs)
  with assms have "validate_loop isfile xs xs = Inr ys" by (simp add: run_validation_def)
  with PList show ?thesis using validate_loop_strings by blast
next
  case (PStr s)
  with assms have "validate_loop isfile [v0] [v0] = Inr ys" by (simp add: run_validation_def)
  with PStr show ?thesis by auto
qed (use assms in \<open>simp_all add: run_validation_def\<close>)

lemma run_validation_settled:
  assumes "run_validation isfile v0 = Inr ys"
  shows "\<forall>y\<in>set ys. settled isfile y"
proof -
  from run_validation_accepted [OF assms] obtain xs
    where "validate_loop isfile xs xs = Inr ys" "\<forall>x\<in>set xs. \<exists>s. x = PStr s" by blast
  with validate_loop_total [of xs isfile] show ?thesis by auto
qed

lemma resolved_supported:
  "get_lunr_supported_lang isfile s = Some d \<Longrightarrow> isfile (lunr_js d)"
  unfolding get_lunr_supported_lang_def by (blast dest: lang_parts_loop_Some)

lemma validate_lang_keeps:
  assumes "settled isfile g" and "validate_lang isfile v x = Inr v'"
  shows "count_list v g \<le> count_list v' g"
proof (cases "settled isfile x")
  case True
  with assms(2) show ?thesis by (simp add: validate_lang_settled)
next
  case False
  with assms(1) have ne: "x \<noteq> g" by auto
  have rm: "count_list (remove1 x v) g = count_list v g"
    using ne by (simp flip: count_mset)
  from assms(2) rm show ?thesis
    by (cases x) (auto simp: validate_lang_def list_remove_def Let_def split: if_splits)
qed

lemma validate_loop_keeps:
  "settled isfile g \<Longrightarrow> validate_loop isfile v rest = Inr v' \<Longrightarrow>
   count_list v g \<le> count_list v' g"
proof (induction rest arbitrary: v)
  case Nil
  then show ?case by simp
next
  case (Cons x rest)
  from Cons.prems(2) obtain v1 where st: "validate_lang isfile v x = Inr v1"
      and lp: "validate_loop isfile v1 rest = Inr v'"
    by (auto split: sum.splits)
  from validate_lang_keeps [OF Cons.prems(1) st] Cons.IH [OF Cons.prems(1) lp]
  show ?case by simp
qed

lemma validate_loop_keeps_member:
  assumes "settled isfile g" and "validate_loop isfile v rest = Inr v'" and "g \<in> set v"
  shows "g \<in> set v'"
proof -
  from assms(3) have "0 < count_list v g" by (simp add: count_list_0_iff zero_less_iff_neq_zero)
  with validate_loop_keeps [OF assms(1,2)] have "0 < count_list v' g" by simp
  then show ?thesis by (simp add: count_list_0_iff zero_less_iff_neq_zero)
qed

lemma remove1_keeps_en:
  "PStr ''en'' \<in> set v \<Longrightarrow> s \<noteq> ''en'' \<Longrightarrow> remove1 (PStr s) v \<noteq> []"
  by (metis empty_iff empty_set in_set_remove1 pyval.inject(3))

lemma validate_lang_nonempty:
  "v \<noteq> [] \<Longrightarrow> validate_lang isfile v x = Inr v' \<Longrightarrow> v' \<noteq> []"
  by (cases x)
    (auto simp: validate_lang_def list_remove_def Let_def remove1_keeps_en split: if_splits)

lemma validate_loop_nonempty:
  "v \<noteq> [] \<Longrightarrow> validate_loop isfile v rest = Inr v' \<Longrightarrow> v' \<noteq> []"
proof (induction rest arbitrary: v)
  case Nil
  then show ?case by simp
next
  case (Cons x rest)
  from Cons.prems(2) obtain v1 where st: "validate_lang isfile v x = Inr v1"
      and lp: "validate_loop isfile v1 rest = Inr v'"
    by (auto split: sum.splits)
  from validate_lang_nonempty [OF Cons.prems(1) st] Cons.IH [OF _ lp]
  show ?case by simp
qed

lemma validate_loop_append:
  "validate_loop isfile v (pre @ x # post) = Inr v' \<Longrightarrow>
   \<exists>v1 v2. validate_loop isfile v pre = Inr v1 \<and> validate_lang isfile v1 x = Inr v2
      \<and> validate_loop isfile v2 post = Inr v'"
  by (induction pre arbitrary: v) (auto split: sum.splits)

lemma validate_lang_failed_en:
  assumes "validate_lang isfile v (PStr s) = Inr v'" and "s \<noteq> ''en''"
    and "not_detected (get_lunr_supported_lang isfile s)"
  shows "PStr ''en'' \<in> set v'"
  using assms by (auto simp: validate_lang_def list_remove_def split: if_splits)

lemma validate_lang_resolved:
  assumes "PStr s \<in> set v" and "s \<noteq> ''en''"
    and "get_lunr_supported_lang isfile s = Some d" and "d \<noteq> []" and "d \<noteq> s"
  shows "validate_lang isfile v (PStr s) = Inr (remove1 (PStr s) v @ [PStr d])"
  using assms by (simp add: validate_lang_def list_remove_def)

lemma settled_supported:
  "settled isfile y \<Longrightarrow> \<exists>s. y = PStr s \<and> (s = ''en'' \<or> isfile (lunr_js s))"
  by (cases y) (auto simp: settled_def dest: resolved_supported)

section \<open>Codes that fail resolution\<close>

text \<open>
  C1. In a list of string codes, a code other than \<^verbatim>\<open>'en'\<close> whose resolution fails
  (\<^verbatim>\<open>get_lunr_supported_lang\<close> finds no supported part) is absent from the validated
  list, and the validated list contains \<^verbatim>\<open>'en'\<close>. The loop never raises on such a
  list. For \<^verbatim>\<open>["de", "zzz", "jp"]\<close> with support files for \<^verbatim>\<open>de\<close> and
  \<^verbatim>\<open>jp\<close> only, the result is \<^verbatim>\<open>["de", "jp", "en"]\<close>.
\<close>

theorem failed_code_dropped_en_added:
  assumes strs: "\<forall>x\<in>set xs. \<exists>c. x = PStr c"
    and mem: "PStr s \<in> set xs" and ne: "s \<noteq> ''en''"
    and fails: "not_detected (get_lunr_supported_lang isfile s)"
  shows "\<exists>ys. run_validation isfile (PList xs) = Inr ys
           \<and> PStr s \<notin> set ys \<and> PStr ''en'' \<in> set ys"
proof -
  from validate_loop_total [OF strs, of isfile] obtain ys
    where ys: "validate_loop isfile xs xs = Inr ys" and st: "\<forall>g\<in>set ys. settled isfile g"
    by blast
  have "\<not> settled isfile (PStr s)"
    using ne fails by (auto simp: settled_def)
  with st have gone: "PStr s \<notin> set ys" by blast
  from mem obtain pre post where "xs = pre @ PStr s # post"
    by (auto dest: split_list)
  with ys validate_loop_append [of isfile xs pre "PStr s" post ys]
  obtain v1 v2 where "validate_lang isfile v1 (PStr s) = Inr v2"
      and post: "validate_loop isfile v2 post = Inr ys"
    by auto
  then have "PStr ''en'' \<in> set v2"
    using ne fails by (blast intro: validate_lang_failed_en)
  moreover have "settled isfile (PStr ''en'')" by (simp add: settled_def)
  ultimately have "PStr ''en'' \<in> set ys"
    using post by (blast intro: validate_loop_keeps_member)
  with ys gone show ?thesis by (simp add: run_validation_def)
qed

theorem failed_code_dropped_en_added_witness:
  "run_validation (isfile_in [''lunr.de.js'', ''lunr.jp.js''])
      (PList [PStr ''de'', PStr ''zzz'', PStr ''jp''])
     = Inr [PStr ''de'', PStr ''jp'', PStr ''en'']
   \<and> PStr ''zzz'' \<in> set [PStr ''de'', PStr ''zzz'', PStr ''jp'']
   \<and> not_detected (get_lunr_supported_lang (isfile_in [''lunr.de.js'', ''lunr.jp.js'']) ''zzz'')
   \<and> PStr ''zzz'' \<notin> set [PStr ''de'', PStr ''jp'', PStr ''en'']
   \<and> PStr ''en'' \<in> set [PStr ''de'', PStr ''jp'', PStr ''en'']"
proof -
  have run: "run_validation (isfile_in [''lunr.de.js'', ''lunr.jp.js''])
      (PList [PStr ''de'', PStr ''zzz'', PStr ''jp''])
     = Inr [PStr ''de'', PStr ''jp'', PStr ''en'']"
    by code_simp
  have nd: "not_detected (get_lunr_supported_lang (isfile_in [''lunr.de.js'', ''lunr.jp.js'']) ''zzz'')"
    by code_simp
  have "\<exists>ys. run_validation (isfile_in [''lunr.de.js'', ''lunr.jp.js''])
      (PList [PStr ''de'', PStr ''zzz'', PStr ''jp'']) = Inr ys
           \<and> PStr ''zzz'' \<notin> set ys \<and> PStr ''en'' \<in> set ys"
    by (rule failed_code_dropped_en_added [OF _ _ _ nd]) simp_all
  with run nd show ?thesis by simp
qed

section \<open>The validated list is not empty, unless the input was\<close>

text \<open>
  The empty list passes validation and stays empty: the loop body never runs, so nothing
  adds \<^verbatim>\<open>'en'\<close>.
\<close>

theorem empty_list_stays_empty_counterexample:
  "run_validation (isfile_in [''lunr.de.js'']) (PList []) = Inr []"
  by (simp add: run_validation_def)

text \<open>
  C3 (amended). Every accepted input other than the empty list yields a validated list
  that is non-empty, and each of its codes is \<^verbatim>\<open>'en'\<close> or has a support file.
\<close>

theorem validated_list_nonempty:
  assumes "run_validation isfile v0 = Inr ys" and "v0 \<noteq> PList []"
  shows "ys \<noteq> [] \<and> (\<forall>y\<in>set ys. \<exists>s. y = PStr s \<and> (s = ''en'' \<or> isfile (lunr_js s)))"
proof -
  from run_validation_accepted [OF assms(1)] obtain xs
    where xs: "v0 = PList xs \<or> (\<exists>s. v0 = PStr s \<and> xs = [v0])"
      and lp: "validate_loop isfile xs xs = Inr ys"
    by blast
  from xs assms(2) have "xs \<noteq> []" by auto
  then have "ys \<noteq> []" using lp by (rule validate_loop_nonempty)
  moreover have "\<forall>y\<in>set ys. \<exists>s. y = PStr s \<and> (s = ''en'' \<or> isfile (lunr_js s))"
    using run_validation_settled [OF assms(1)] by (blast dest: settled_supported)
  ultimately show ?thesis by simp
qed

theorem validated_list_nonempty_witness:
  "run_validation (isfile_in [''lunr.fr.js'']) (PList [PStr ''fr_CA'', PStr ''xx''])
     = Inr [PStr ''fr'', PStr ''en'']
   \<and> PList [PStr ''fr_CA'', PStr ''xx''] \<noteq> PList []
   \<and> [PStr ''fr'', PStr ''en''] \<noteq> []
   \<and> isfile_in [''lunr.fr.js''] (lunr_js ''fr'')"
proof -
  have run: "run_validation (isfile_in [''lunr.fr.js'']) (PList [PStr ''fr_CA'', PStr ''xx''])
     = Inr [PStr ''fr'', PStr ''en'']"
    by code_simp
  from validated_list_nonempty [OF run] run show ?thesis by simp
qed

section \<open>Codes that resolve to a different code\<close>

text \<open>
  The resolved code does not take the position of the original: \<^verbatim>\<open>value.remove(lang)\<close>
  is followed by \<^verbatim>\<open>value.append(lang_detected)\<close>, so \<^verbatim>\<open>["DE", "fr"]\<close> becomes
  \<^verbatim>\<open>["fr", "de"]\<close>, not \<^verbatim>\<open>["de", "fr"]\<close>.
\<close>

theorem resolved_code_not_in_place_counterexample:
  "run_validation (isfile_in [''lunr.de.js'', ''lunr.fr.js'']) (PList [PStr ''DE'', PStr ''fr''])
     = Inr [PStr ''fr'', PStr ''de'']
   \<and> get_lunr_supported_lang (isfile_in [''lunr.de.js'', ''lunr.fr.js'']) ''DE'' = Some ''de''
   \<and> run_validation (isfile_in [''lunr.de.js'', ''lunr.fr.js'']) (PList [PStr ''DE'', PStr ''fr''])
     \<noteq> Inr ([PStr ''DE'', PStr ''fr''] [0 := PStr ''de''])"
  by code_simp

text \<open>
  C4 (amended). In a list of string codes, a code other than \<^verbatim>\<open>'en'\<close> that resolves
  to a different, non-empty code is removed (its first occurrence) and the resolved code is
  appended at the end of the list; validation goes on without an exception, and the
  validated list contains the resolved code and no longer the original one.
\<close>

theorem resolved_code_replaces_original:
  assumes strs: "\<forall>x\<in>set xs. \<exists>c. x = PStr c"
    and mem: "PStr s \<in> set xs" and ne: "s \<noteq> ''en''"
    and res: "get_lunr_supported_lang isfile s = Some d" and d: "d \<noteq> []" "d \<noteq> s"
  shows "(\<exists>ys. run_validation isfile (PList xs) = Inr ys
            \<and> PStr s \<notin> set ys \<and> PStr d \<in> set ys)
         \<and> (\<forall>v. PStr s \<in> set v \<longrightarrow>
               validate_lang isfile v (PStr s) = Inr (remove1 (PStr s) v @ [PStr d]))"
proof -
  from validate_loop_total [OF strs, of isfile] obtain ys
    where ys: "validate_loop isfile xs xs = Inr ys" and st: "\<forall>g\<in>set ys. settled isfile g"
    by blast
  have "\<not> settled isfile (PStr s)"
    using ne res d by (simp add: settled_def)
  with st have gone: "PStr s \<notin> set ys" by blast
  from mem obtain pre post where "xs = pre @ PStr s # post"
    by (auto dest: split_list)
  with ys validate_loop_append [of isfile xs pre "PStr s" post ys]
  obtain v1 v2 where step: "validate_lang isfile v1 (PStr s) = Inr v2"
      and post: "validate_loop isfile v2 post = Inr ys"
    by auto
  from step have "PStr d \<in> set v2"
    using ne res d by (auto simp: validate_lang_def list_remove_def split: if_splits)
  moreover have "settled isfile (PStr d)"
    using resolved_is_fixed [OF res] d by (simp add: settled_def)
  ultimately have "PStr d \<in> set ys"
    using post by (blast intro: validate_loop_keeps_member)
  with ys gone have "\<exists>ys. run_validation isfile (PList xs) = Inr ys
            \<and> PStr s \<notin> set ys \<and> PStr d \<in> set ys"
    by (simp add: run_validation_def)
  moreover have "\<forall>v. PStr s \<in> set v \<longrightarrow>
               validate_lang isfile v (PStr s) = Inr (remove1 (PStr s) v @ [PStr d])"
    using ne res d by (simp add: validate_lang_resolved)
  ultimately show ?thesis by simp
qed

theorem resolved_code_replaces_original_witness:
  "get_lunr_supported_lang (isfile_in [''lunr.de.js'', ''lunr.fr.js'']) ''DE'' = Some ''de''
   \<and> run_validation (isfile_in [''lunr.de.js'', ''lunr.fr.js'']) (PList [PStr ''DE'', PStr ''fr''])
       = Inr [PStr ''fr'', PStr ''de'']
   \<and> PStr ''DE'' \<notin> set [PStr ''fr'', PStr ''de'']
   \<and> PStr ''de'' \<in> set [PStr ''fr'', PStr ''de'']
   \<and> validate_lang (isfile_in [''lunr.de.js'', ''lunr.fr.js'']) [PStr ''DE'', PStr ''fr''] (PStr ''DE'')
       = Inr (remove1 (PStr ''DE'') [PStr ''DE'', PStr ''fr''] @ [PStr ''de''])"
proof -
  have res: "get_lunr_supported_lang (isfile_in [''lunr.de.js'', ''lunr.fr.js'']) ''DE'' = Some ''de''"
    by code_simp
  have run: "run_validation (isfile_in [''lunr.de.js'', ''lunr.fr.js''])
      (PList [PStr ''DE'', PStr ''fr'']) = Inr [PStr ''fr'', PStr ''de'']"
    by code_simp
  have "(\<exists>ys. run_validation (isfile_in [''lunr.de.js'', ''lunr.fr.js''])
             (PList [PStr ''DE'', PStr ''fr'']) = Inr ys
            \<and> PStr ''DE'' \<notin> set ys \<and> PStr ''de'' \<in> set ys)
         \<and> (\<forall>v. PStr ''DE'' \<in> set v \<longrightarrow>
               validate_lang (isfile_in [''lunr.de.js'', ''lunr.fr.js'']) v (PStr ''DE'')
                 = Inr (remove1 (PStr ''DE'') v @ [PStr ''de'']))"
    by (rule resolved_code_replaces_original [OF _ _ _ res]) simp_all
  then have "validate_lang (isfile_in [''lunr.de.js'', ''lunr.fr.js'']) [PStr ''DE'', PStr ''fr''] (PStr ''DE'')
       = Inr (remove1 (PStr ''DE'') [PStr ''DE'', PStr ''fr''] @ [PStr ''de''])"
    by simp
  with res run show ?thesis by simp
qed

section \<open>The code en\<close>

text \<open>
  C8. An iteration on \<^verbatim>\<open>'en'\<close> leaves the list as it is, whatever the support files
  are (the file system is not consulted); no occurrence of \<^verbatim>\<open>'en'\<close> is lost by
  validation; and a list of \<^verbatim>\<open>'en'\<close> only is returned unchanged.
\<close>

theorem en_passes_unchanged:
  "validate_lang isfile v (PStr ''en'') = Inr v
   \<and> (run_validation isfile (PList xs) = Inr ys \<longrightarrow>
        count_list xs (PStr ''en'') \<le> count_list ys (PStr ''en''))
   \<and> ((\<forall>x\<in>set xs. x = PStr ''en'') \<longrightarrow> run_validation isfile (PList xs) = Inr xs)"
proof -
  have en: "settled isfile (PStr ''en'')" by (simp add: settled_def)
  have "validate_lang isfile v (PStr ''en'') = Inr v" by (simp add: validate_lang_def)
  moreover have "run_validation isfile (PList xs) = Inr ys \<longrightarrow>
        count_list xs (PStr ''en'') \<le> count_list ys (PStr ''en'')"
    using validate_loop_keeps [OF en, of xs xs ys] by (simp add: run_validation_def)
  moreover have "(\<forall>x\<in>set xs. x = PStr ''en'') \<longrightarrow> run_validation isfile (PList xs) = Inr xs"
  proof
    assume "\<forall>x\<in>set xs. x = PStr ''en''"
    with en have "\<forall>x\<in>set xs. settled isfile x" by auto
    then show "run_validation isfile (PList xs) = Inr xs"
      by (simp add: run_validation_def validate_loop_settled)
  qed
  ultimately show ?thesis by simp
qed

theorem en_passes_unchanged_witness:
  "run_validation (isfile_in []) (PList [PStr ''en'', PStr ''xx'', PStr ''en''])
     = Inr [PStr ''en'', PStr ''en'']
   \<and> count_list [PStr ''en'', PStr ''xx'', PStr ''en''] (PStr ''en'') = 2
   \<and> count_list [PStr ''en'', PStr ''en''] (PStr ''en'') = 2
   \<and> run_validation (isfile_in []) (PList [PStr ''en'', PStr ''en'']) = Inr [PStr ''en'', PStr ''en'']"
proof -
  have run: "run_validation (isfile_in []) (PList [PStr ''en'', PStr ''xx'', PStr ''en''])
     = Inr [PStr ''en'', PStr ''en'']"
    by code_simp
  have "run_validation (isfile_in []) (PList [PStr ''en'', PStr ''en'']) = Inr [PStr ''en'', PStr ''en'']"
    using en_passes_unchanged [of "isfile_in []" "[]" "[PStr ''en'', PStr ''en'']" "[]"] by simp
  with run show ?thesis by simp
qed

section \<open>Duplicates after a fallback\<close>

text \<open>
  C7. The validated list can hold duplicates: when \<^verbatim>\<open>lunr.ru.js\<close> exists,
  \<^verbatim>\<open>['uk', 'ru']\<close> is validated to \<^verbatim>\<open>['ru', 'ru']\<close>, since \<^verbatim>\<open>'uk'\<close> falls
  back to \<^verbatim>\<open>'ru'\<close>, which is appended although it is already there.
\<close>

theorem fallback_yields_duplicates:
  assumes "isfile ''lunr.ru.js''"
  shows "run_validation isfile (PList [PStr ''uk'', PStr ''ru'']) = Inr [PStr ''ru'', PStr ''ru'']
         \<and> \<not> distinct [PStr ''ru'', PStr ''ru'']"
  using assms
  by (simp add: run_validation_def validate_lang_def list_remove_def get_lunr_supported_lang_def
      str_lower_def lower_char_def fallback_get lunr_js_def)

theorem fallback_yields_duplicates_witness:
  "isfile_in [''lunr.ru.js''] ''lunr.ru.js''
   \<and> run_validation (isfile_in [''lunr.ru.js'']) (PList [PStr ''uk'', PStr ''ru''])
       = Inr [PStr ''ru'', PStr ''ru'']
   \<and> \<not> distinct [PStr ''ru'', PStr ''ru'']"
proof -
  have h: "isfile_in [''lunr.ru.js''] ''lunr.ru.js''" by (simp add: isfile_in_def)
  from h fallback_yields_duplicates [of "isfile_in [''lunr.ru.js'']"] show ?thesis by simp
qed

section \<open>The shape of the lang option\<close>

text \<open>
  C5. A single string code is validated as the one-element list holding it, and is always
  accepted; a value that is neither a string nor a list makes \<^verbatim>\<open>run_validation\<close>
  raise \<^verbatim>\<open>ValidationError\<close> (the configuration error), before the loop over the codes
  starts.
\<close>

theorem lang_string_or_list:
  "run_validation isfile (PStr s) = run_validation isfile (PList [PStr s])
   \<and> (\<exists>ys. run_validation isfile (PStr s) = Inr ys)
   \<and> ((\<forall>c. v0 \<noteq> PStr c) \<and> (\<forall>xs. v0 \<noteq> PList xs) \<longrightarrow>
        run_validation isfile v0 = Inl (ValidationError ''Expected a list of language codes.''))"
proof -
  have "run_validation isfile (PStr s) = run_validation isfile (PList [PStr s])"
    by (simp add: run_validation_def)
  moreover have "\<exists>ys. run_validation isfile (PStr s) = Inr ys"
    using validate_loop_total [of "[PStr s]" isfile] by (auto simp: run_validation_def)
  moreover have "(\<forall>c. v0 \<noteq> PStr c) \<and> (\<forall>xs. v0 \<noteq> PList xs) \<longrightarrow>
        run_validation isfile v0 = Inl (ValidationError ''Expected a list of language codes.'')"
    by (cases v0) (simp_all add: run_validation_def)
  ultimately show ?thesis by blast
qed

theorem lang_string_or_list_witness:
  "run_validation (isfile_in [''lunr.de.js'']) (PStr ''de'') = Inr [PStr ''de'']
   \<and> run_validation (isfile_in [''lunr.de.js'']) (PList [PStr ''de'']) = Inr [PStr ''de'']
   \<and> run_validation (isfile_in [''lunr.de.js'']) (PInt 3)
       = Inl (ValidationError ''Expected a list of language codes.'')
   \<and> run_validation (isfile_in [''lunr.de.js'']) PNone
       = Inl (ValidationError ''Expected a list of language codes.'')"
proof -
  have run: "run_validation (isfile_in [''lunr.de.js'']) (PList [PStr ''de'']) = Inr [PStr ''de'']"
    by code_simp
  from run lang_string_or_list [of "isfile_in [''lunr.de.js'']" "''de''" "PInt 3"]
    lang_string_or_list [of "isfile_in [''lunr.de.js'']" "''de''" "PNone"]
  show ?thesis by simp
qed

section \<open>Resolution of a code against the support files\<close>

text \<open>
  Resolution does not stop at the portion before the first \<^verbatim>\<open>_\<close>: the loop goes
  through every portion, so \<^verbatim>\<open>zz_de\<close> resolves to \<^verbatim>\<open>de\<close> although \<^verbatim>\<open>zz\<close>
  alone does not resolve.
\<close>

theorem later_portion_resolves_counterexample:
  "get_lunr_supported_lang (isfile_in [''lunr.de.js'']) ''zz_de'' = Some ''de''
   \<and> hd (str_split CHR ''_'' ''zz_de'') = ''zz''
   \<and> get_lunr_supported_lang (isfile_in [''lunr.de.js'']) ''zz'' = None"
  by code_simp

lemma lang_parts_loop_find:
  "lang_parts_loop isfile ps =
     List.find (\<lambda>p. isfile (lunr_js p)) (map (\<lambda>p. dict_get fallback (str_lower p) (str_lower p)) ps)"
  by (induction ps) (simp_all add: Let_def)

text \<open>
  C2 (amended). Resolution takes the portions of the code between the separators
  \<^verbatim>\<open>_\<close> from left to right, lower-cases each, sends it through the fallback table, and
  returns the first one whose support file exists (none when there is no such portion). It
  is case-insensitive: two codes with the same lower-case form resolve alike.
\<close>

theorem resolution_first_supported_portion:
  "get_lunr_supported_lang isfile lang =
     List.find (\<lambda>p. isfile (lunr_js p))
       (map (\<lambda>p. dict_get fallback (str_lower p) (str_lower p)) (str_split CHR ''_'' lang))
   \<and> (str_lower a = str_lower b \<longrightarrow>
        get_lunr_supported_lang isfile a = get_lunr_supported_lang isfile b)"
proof -
  have low: "get_lunr_supported_lang isfile (str_lower c) = get_lunr_supported_lang isfile c" for c
    by (simp add: get_lunr_supported_lang_def lang_parts_loop_find str_split_lower
        comp_def str_lower_idem)
  have "str_lower a = str_lower b \<longrightarrow>
        get_lunr_supported_lang isfile a = get_lunr_supported_lang isfile b"
    using low [of a] low [of b] by auto
  then show ?thesis
    by (simp add: get_lunr_supported_lang_def lang_parts_loop_find)
qed

theorem resolution_first_supported_portion_witness:
  "str_lower ''PT_br'' = str_lower ''pt_BR''
   \<and> get_lunr_supported_lang (isfile_in [''lunr.pt.js'']) ''PT_br'' = Some ''pt''
   \<and> get_lunr_supported_lang (isfile_in [''lunr.pt.js'']) ''pt_BR'' = Some ''pt''"
proof -
  have l: "str_lower ''PT_br'' = str_lower ''pt_BR''" by code_simp
  have g: "get_lunr_supported_lang (isfile_in [''lunr.pt.js'']) ''PT_br'' = Some ''pt''" by code_simp
  have "get_lunr_supported_lang (isfile_in [''lunr.pt.js'']) ''PT_br''
      = get_lunr_supported_lang (isfile_in [''lunr.pt.js'']) ''pt_BR''"
    using l resolution_first_supported_portion
      [of "isfile_in [''lunr.pt.js'']" "''PT_br''" "''PT_br''" "''pt_BR''"]
    by blast
  with l g show ?thesis by simp
qed

section \<open>The support files selected after the build\<close>

lemma per_lang_files_eq:
  "per_lang_files files lang = files @ map lunr_js (filter (\<lambda>l. l \<noteq> ''en'') lang)"
  by (induction lang arbitrary: files) simp_all

lemma lunr_js_multi: "lunr_js l = ''lunr.multi.js'' \<longleftrightarrow> l = ''multi''"
proof -
  have "l @ ''.js'' = ''multi'' @ ''.js'' \<longleftrightarrow> l = ''multi''" by (rule append_same_eq)
  then show ?thesis by (simp add: lunr_js_def)
qed

lemma set_lang_files:
  "set (lang_files lang) =
     (if length lang > 1 \<or> ''en'' \<notin> set lang then {''lunr.stemmer.support.js''} else {})
     \<union> (if length lang > 1 then {''lunr.multi.js''} else {})
     \<union> (if ''ja'' \<in> set lang \<or> ''jp'' \<in> set lang then {''tinyseg.js''} else {})
     \<union> lunr_js ` {l \<in> set lang. l \<noteq> ''en''}"
  by (auto simp add: lang_files_def per_lang_files_eq Let_def)

text \<open>
  The selection depends on the theme as well: under \<^verbatim>\<open>search_index_only\<close> nothing is
  selected, however many languages there are. And the per-language file of the code
  \<^verbatim>\<open>multi\<close> is the combiner file itself, selected with a single language configured.
\<close>

theorem support_files_gate_counterexample:
  "on_post_build_files [''search_index_only'' \<mapsto> PBool True] (Some [''de'', ''fr'']) = Inr []
   \<and> on_post_build_files Map.empty (Some [''multi''])
       = Inr [''lunr.stemmer.support.js'', ''lunr.multi.js'']"
  by (simp add: on_post_build_files_def search_index_only_def lang_files_def lunr_js_def)

text \<open>
  C9 (amended). When the theme does not set \<^verbatim>\<open>search_index_only\<close>, the files selected
  for copying are a function of the validated language list, and nothing is selected
  otherwise. In that function the combiner file \<^verbatim>\<open>lunr.multi.js\<close> is selected exactly
  when more than one language is configured or the code \<^verbatim>\<open>multi\<close> is in the list, the
  segmentation helper \<^verbatim>\<open>tinyseg.js\<close> exactly when \<^verbatim>\<open>ja\<close> or \<^verbatim>\<open>jp\<close> is in the
  list, the stemmer support file when more than one language is configured or \<^verbatim>\<open>en\<close>
  is absent, and one per-language file for each code other than \<^verbatim>\<open>en\<close>.
\<close>

theorem support_files_selection:
  "on_post_build_files theme (Some lang)
     = Inr (if search_index_only theme then [] else lang_files lang)
   \<and> (''lunr.multi.js'' \<in> set (lang_files lang) \<longleftrightarrow> length lang > 1 \<or> ''multi'' \<in> set lang)
   \<and> (''tinyseg.js'' \<in> set (lang_files lang) \<longleftrightarrow> ''ja'' \<in> set lang \<or> ''jp'' \<in> set lang)
   \<and> (length lang > 1 \<or> ''en'' \<notin> set lang \<longrightarrow>
        ''lunr.stemmer.support.js'' \<in> set (lang_files lang))
   \<and> (\<forall>l\<in>set lang. l \<noteq> ''en'' \<longrightarrow> lunr_js l \<in> set (lang_files lang))"
proof -
  have a: "on_post_build_files theme (Some lang)
     = Inr (if search_index_only theme then [] else lang_files lang)"
    by (simp add: on_post_build_files_def)
  have b: "''lunr.multi.js'' \<in> set (lang_files lang) \<longleftrightarrow> length lang > 1 \<or> ''multi'' \<in> set lang"
    unfolding set_lang_files by (auto simp: lunr_js_multi) (simp_all add: lunr_js_def)
  have c: "''tinyseg.js'' \<in> set (lang_files lang) \<longleftrightarrow> ''ja'' \<in> set lang \<or> ''jp'' \<in> set lang"
    unfolding set_lang_files by (auto simp: lunr_js_def)
  have d: "length lang > 1 \<or> ''en'' \<notin> set lang \<longrightarrow>
        ''lunr.stemmer.support.js'' \<in> set (lang_files lang)"
    unfolding set_lang_files by simp
  have e: "\<forall>l\<in>set lang. l \<noteq> ''en'' \<longrightarrow> lunr_js l \<in> set (lang_files lang)"
    unfolding set_lang_files by simp
  from a b c d e show ?thesis by blast
qed

theorem support_files_selection_witness:
  "on_post_build_files Map.empty (Some [''de'', ''ja'', ''en''])
     = Inr [''lunr.stemmer.support.js'', ''lunr.multi.js'', ''tinyseg.js'', ''lunr.de.js'', ''lunr.ja.js'']
   \<and> \<not> search_index_only Map.empty
   \<and> ''lunr.multi.js'' \<in> set (lang_files [''de'', ''ja'', ''en''])
   \<and> ''tinyseg.js'' \<in> set (lang_files [''de'', ''ja'', ''en''])
   \<and> ''lunr.stemmer.support.js'' \<in> set (lang_files [''de'', ''ja'', ''en''])
   \<and> lunr_js ''de'' \<in> set (lang_files [''de'', ''ja'', ''en''])
   \<and> ''lunr.multi.js'' \<notin> set (lang_files [''en''])"
proof -
  have f: "lang_files [''de'', ''ja'', ''en'']
     = [''lunr.stemmer.support.js'', ''lunr.multi.js'', ''tinyseg.js'', ''lunr.de.js'', ''lunr.ja.js'']"
    by (simp add: lang_files_def lunr_js_def)
  have g: "\<not> search_index_only Map.empty" by (simp add: search_index_only_def)
  from f g support_files_selection [of Map.empty "[''de'', ''ja'', ''en'']"]
    support_files_selection [of Map.empty "[''en'']"]
  show ?thesis by (simp add: lunr_js_def)
qed

section \<open>Idempotence of language validation\<close>

text \<open>
  C10. Language validation is idempotent for a fixed set of support files: whenever
  \<^verbatim>\<open>run_validation\<close> returns a list, running it again on that list returns the same
  list, because every code that survives is \<^verbatim>\<open>'en'\<close> or resolves to itself.
\<close>

theorem run_validation_idempotent:
  assumes "run_validation isfile v0 = Inr ys"
  shows "run_validation isfile (PList ys) = Inr ys"
  using run_validation_settled [OF assms]
  by (simp add: run_validation_def validate_loop_settled)

theorem run_validation_idempotent_witness:
  "run_validation (isfile_in [''lunr.de.js'', ''lunr.ru.js''])
     (PList [PStr ''DE_de'', PStr ''zzz'', PStr ''uk''])
     = Inr [PStr ''de'', PStr ''en'', PStr ''ru'']
   \<and> run_validation (isfile_in [''lunr.de.js'', ''lunr.ru.js''])
       (PList [PStr ''de'', PStr ''en'', PStr ''ru''])
     = Inr [PStr ''de'', PStr ''en'', PStr ''ru'']"
proof -
  have h: "run_validation (isfile_in [''lunr.de.js'', ''lunr.ru.js''])
     (PList [PStr ''DE_de'', PStr ''zzz'', PStr ''uk''])
     = Inr [PStr ''de'', PStr ''en'', PStr ''ru'']"
    by code_simp
  from h run_validation_idempotent [OF h] show ?thesis by simp
qed

end
